theory Spec2Isabelle
  imports Complex_Main "HOL-Library.Monad_Syntax"
begin

section \<open>Tennis weather bot: the forecast analyser and the booking tracker\<close>

text \<open>
  A shallow embedding of \<^verbatim>\<open>tennis_bot.py\<close>.

  \<^item> Python floats (temperatures, wind speeds, precipitation probabilities) are modelled
    as \<^typ>\<open>real\<close>: the program only multiplies them by constants, compares them, takes
    \<open>min\<close>/\<open>max\<close> and prints them rounded.
  \<^item> A \<open>datetime\<close> is the number of seconds of local civil time since the epoch, an
    \<^typ>\<open>int\<close>; \<open>datetime.fromtimestamp\<close> is the identity (the process runs in UTC).
  \<^item> A function that can raise returns an \<open>option\<close>: \<open>None\<close> is "an exception left the
    function" (\<open>KeyError\<close> on a missing dictionary key, \<open>IndexError\<close> on \<open>[][0]\<close>,
    \<open>ValueError\<close> of \<open>int\<close>).
  \<^item> Mutation of the caller's dictionaries and of the state file is explicit: the
    functions return the new contents beside their result.
\<close>

subsection \<open>Configuration\<close>

definition MAX_WIND_SPEED_MPH :: real where
  "MAX_WIND_SPEED_MPH = 15"

definition PLAYING_HOURS_START :: nat where
  "PLAYING_HOURS_START = 9"

definition PLAYING_HOURS_END :: nat where
  "PLAYING_HOURS_END = 22"

definition HOURS_BEFORE_SUNSET :: int where
  "HOURS_BEFORE_SUNSET = 1"

subsection \<open>Strings\<close>

text \<open>\<open>str.lower\<close> on the ASCII letters.\<close>

definition lower_char :: "char \<Rightarrow> char" where
  "lower_char c =
     (case map_of (zip ''ABCDEFGHIJKLMNOPQRSTUVWXYZ'' ''abcdefghijklmnopqrstuvwxyz'') c of
        None \<Rightarrow> c
      | Some d \<Rightarrow> d)"

definition lower :: "string \<Rightarrow> string" where
  "lower s = map lower_char s"

text \<open>\<open>s.startswith(p)\<close>, and the substring test \<open>p in s\<close>.\<close>

fun startswith :: "string \<Rightarrow> string \<Rightarrow> bool" where
  "startswith s [] = True"
| "startswith [] (p # ps) = False"
| "startswith (c # cs) (p # ps) = (c = p \<and> startswith cs ps)"

fun substring_in :: "string \<Rightarrow> string \<Rightarrow> bool" where
  "substring_in p [] = (p = [])"
| "substring_in p (c # cs) = (startswith (c # cs) p \<or> substring_in p cs)"

text \<open>Decimal digits of a natural number, \<open>str(n)\<close>.\<close>

definition digit_char :: "nat \<Rightarrow> char" where
  "digit_char d = ''0123456789'' ! (d mod 10)"

fun str_nat :: "nat \<Rightarrow> string" where
  "str_nat n = (if n < 10 then [digit_char n] else str_nat (n div 10) @ [digit_char (n mod 10)])"

declare str_nat.simps [simp del]

text \<open>The format \<open>{n:02d}\<close> of a non-negative integer: at least two digits.\<close>

definition format_02d :: "nat \<Rightarrow> string" where
  "format_02d n = (if n < 10 then CHR ''0'' # str_nat n else str_nat n)"

text \<open>
  The format \<open>{x:.0f}\<close>: the nearest integer, a tie going to the even neighbour, with the
  sign kept in front (so \<open>-0.4\<close> prints as \<open>-0\<close>).
\<close>

definition round_half_even :: "real \<Rightarrow> int" where
  "round_half_even x =
     (let n = \<lfloor>x\<rfloor>; d = x - of_int n
      in if d < 1 / 2 then n else if 1 / 2 < d then n + 1 else if even n then n else n + 1)"

definition format_0f :: "real \<Rightarrow> string" where
  "format_0f x = (if x < 0 then ''-'' else '''') @ str_nat (nat (round_half_even \<bar>x\<bar>))"

subsection \<open>Forecast records\<close>

text \<open>
  One entry of the forecast list, a dictionary. \<open>dt\<close>, \<open>main_temp\<close> (\<open>['main']['temp']\<close>)
  and \<open>wind_speed\<close> (\<open>['wind']['speed']\<close>, in m/s) are always there; \<open>pop\<close> and \<open>weather\<close>
  are read with \<open>.get\<close> and may be absent. \<open>weather\<close> is a list of dictionaries of which
  only the key \<open>main\<close> is read, itself optional. The last five fields are the top-level
  keys \<open>hour\<close>, \<open>will_rain\<close>, \<open>rain_prob\<close>, \<open>wind_mph\<close> and \<open>temp\<close>, absent (\<open>None\<close>) from a
  record as fetched.
\<close>

record forecast =
  dt :: int
  main_temp :: real
  wind_speed :: real
  pop :: "real option"
  weather :: "string option list option"
  hour :: "nat option"
  will_rain :: "bool option"
  rain_prob :: "real option"
  wind_mph :: "real option"
  temp :: "real option"

text \<open>\<open>datetime.fromtimestamp(t).hour\<close>.\<close>

definition hour_of :: "int \<Rightarrow> nat" where
  "hour_of t = nat ((t div 3600) mod 24)"

text \<open>\<open>forecast.get('pop', 0) * 100\<close>.\<close>

definition rain_prob_of :: "forecast \<Rightarrow> real" where
  "rain_prob_of f = (case pop f of None \<Rightarrow> 0 | Some p \<Rightarrow> p) * 100"

text \<open>\<open>forecast.get('weather', [{}])[0].get('main', '')\<close>; an empty list raises.\<close>

definition weather_main :: "forecast \<Rightarrow> string option" where
  "weather_main f =
     (case weather f of
        None \<Rightarrow> Some ''''
      | Some [] \<Rightarrow> None
      | Some (w # _) \<Rightarrow> Some (case w of None \<Rightarrow> '''' | Some m \<Rightarrow> m))"

text \<open>
  \<open>rain_prob > 30 or 'rain' in ....lower()\<close>: the right operand is only evaluated when the
  left one is false.
\<close>

definition will_rain_of :: "forecast \<Rightarrow> bool option" where
  "will_rain_of f =
     (if 30 < rain_prob_of f then Some True
      else do { m \<leftarrow> weather_main f; Some (substring_in ''rain'' (lower m)) })"

definition wind_mph_of :: "forecast \<Rightarrow> real" where
  "wind_mph_of f = wind_speed f * 2.237"

subsection \<open>First pass: enrichment in place\<close>

definition enrich :: "forecast \<Rightarrow> forecast option" where
  "enrich f = do {
     r \<leftarrow> will_rain_of f;
     Some (f\<lparr>hour := Some (hour_of (dt f)),
             will_rain := Some r,
             rain_prob := Some (rain_prob_of f),
             wind_mph := Some (wind_mph_of f),
             temp := Some (main_temp f)\<rparr>)
   }"

fun first_pass :: "forecast list \<Rightarrow> forecast list option" where
  "first_pass [] = Some []"
| "first_pass (f # fs) = do { f' \<leftarrow> enrich f; fs' \<leftarrow> first_pass fs; Some (f' # fs') }"

subsection \<open>Second pass: statistics and reasons\<close>

text \<open>A dry window while it is built, and an entry of \<open>results['windows']\<close>.\<close>

record window =
  w_start :: nat
  w_end :: nat
  w_temp :: real
  w_wind :: real

record report_window =
  time :: string
  r_temp :: real
  r_wind :: real

record results =
  playable :: bool
  windows :: "report_window list"
  reasons :: "string list"
  temp_range :: "real \<times> real"
  max_wind :: real

definition initial_results :: results where
  "initial_results =
     \<lparr>playable = False, windows = [], reasons = [], temp_range = (999, -999), max_wind = 0\<rparr>"

text \<open>The test of both scanning loops that skips a record (\<open>continue\<close>).\<close>

definition out_of_scope :: "int \<Rightarrow> nat \<Rightarrow> int \<Rightarrow> bool" where
  "out_of_scope cutoff_time h t \<longleftrightarrow>
     h < PLAYING_HOURS_START \<or> PLAYING_HOURS_END \<le> h \<or> cutoff_time < t"

definition wind_reason :: "real \<Rightarrow> string" where
  "wind_reason w = ''wind speeds up to '' @ format_0f w @ ''mph''"

definition track :: "int \<Rightarrow> results \<Rightarrow> forecast \<Rightarrow> results option" where
  "track cutoff_time res f = do {
     h \<leftarrow> hour f;
     if out_of_scope cutoff_time h (dt f) then Some res
     else do {
       t \<leftarrow> temp f;
       w \<leftarrow> wind_mph f;
       let res1 = res\<lparr>temp_range := (min (fst (temp_range res)) t, max (snd (temp_range res)) t),
                      max_wind := max (max_wind res) w\<rparr>;
       Some (if MAX_WIND_SPEED_MPH < w \<and> ''wind too high'' \<notin> set (reasons res1)
             then res1\<lparr>reasons := reasons res1 @ [wind_reason w]\<rparr>
             else res1)
     }
   }"

fun second_pass :: "int \<Rightarrow> results \<Rightarrow> forecast list \<Rightarrow> results option" where
  "second_pass cutoff_time res [] = Some res"
| "second_pass cutoff_time res (f # fs) =
     do { res' \<leftarrow> track cutoff_time res f; second_pass cutoff_time res' fs }"

subsection \<open>Third pass: dry windows\<close>

text \<open>
  The state of the scan is \<open>(dry_windows, current_window)\<close>. In
  \<open>not forecast['will_rain'] and forecast['wind_mph'] <= MAX_WIND_SPEED_MPH\<close> the wind is
  only read when the record is dry.
\<close>

definition scan_step ::
  "int \<Rightarrow> window list \<times> window option \<Rightarrow> forecast \<Rightarrow> (window list \<times> window option) option"
where
  "scan_step cutoff_time st f =
     (let h = hour_of (dt f); dry_windows = fst st; current_window = snd st
      in if out_of_scope cutoff_time h (dt f) then Some st
         else do {
           r \<leftarrow> will_rain f;
           ok \<leftarrow> (if r then Some False else do { w \<leftarrow> wind_mph f; Some (w \<le> MAX_WIND_SPEED_MPH) });
           if ok then
             (case current_window of
                None \<Rightarrow> do {
                  t \<leftarrow> temp f;
                  w \<leftarrow> wind_mph f;
                  Some (dry_windows, Some \<lparr>w_start = h, w_end = h + 3, w_temp = t, w_wind = w\<rparr>)
                }
              | Some c \<Rightarrow> Some (dry_windows, Some (c\<lparr>w_end := h + 3\<rparr>)))
           else
             (case current_window of
                None \<Rightarrow> Some st
              | Some c \<Rightarrow> Some (dry_windows @ [c], None))
         })"

fun third_pass ::
  "int \<Rightarrow> window list \<times> window option \<Rightarrow> forecast list \<Rightarrow> (window list \<times> window option) option"
where
  "third_pass cutoff_time st [] = Some st"
| "third_pass cutoff_time st (f # fs) =
     do { st' \<leftarrow> scan_step cutoff_time st f; third_pass cutoff_time st' fs }"

text \<open>The flush after the loop: \<open>if current_window: dry_windows.append(current_window)\<close>.\<close>

definition flush :: "window list \<times> window option \<Rightarrow> window list" where
  "flush st = (case snd st of None \<Rightarrow> fst st | Some c \<Rightarrow> fst st @ [c])"

definition find_dry_windows :: "int \<Rightarrow> forecast list \<Rightarrow> window list option" where
  "find_dry_windows cutoff_time fs =
     map_option flush (third_pass cutoff_time ([], None) (sort_key dt fs))"

subsection \<open>Descriptions and verdict\<close>

text \<open>
  \<open>any(f['will_rain'] and P(f.get('hour', 0)) for f in day_forecasts)\<close>, which stops at the
  first record that satisfies the test.
\<close>

fun any_rain :: "(nat \<Rightarrow> bool) \<Rightarrow> forecast list \<Rightarrow> bool option" where
  "any_rain P [] = Some False"
| "any_rain P (f # fs) = do {
     r \<leftarrow> will_rain f;
     if r \<and> P (case hour f of None \<Rightarrow> 0 | Some h \<Rightarrow> h) then Some True else any_rain P fs
   }"

definition window_desc :: "bool \<Rightarrow> bool \<Rightarrow> window \<Rightarrow> string" where
  "window_desc has_morning_rain has_afternoon_rain w =
     format_02d (w_start w) @ '':00-'' @ format_02d (w_end w) @ '':00'' @
     (if w_start w < 12 \<and> has_afternoon_rain then '' (before rain)''
      else if 18 \<le> w_start w \<and> (has_morning_rain \<or> has_afternoon_rain) then '' (after rain)''
      else '''')"

definition report :: "bool \<Rightarrow> bool \<Rightarrow> window \<Rightarrow> report_window" where
  "report has_morning_rain has_afternoon_rain w =
     \<lparr>time = window_desc has_morning_rain has_afternoon_rain w,
      r_temp = w_temp w, r_wind = w_wind w\<rparr>"

text \<open>
  \<open>analyze_day_weather(day_forecasts, day_name, sunset_time)\<close>. The result is the analysis
  together with the contents of the caller's list after the call.
\<close>

definition cutoff :: "int \<Rightarrow> int" where
  "cutoff sunset_time = sunset_time - HOURS_BEFORE_SUNSET * 3600"

definition analyze_day_weather ::
  "forecast list \<Rightarrow> string \<Rightarrow> int \<Rightarrow> (results \<times> forecast list) option"
where
  "analyze_day_weather day_forecasts day_name sunset_time = do {
     let cutoff_time = cutoff sunset_time;
     fs \<leftarrow> first_pass day_forecasts;
     res \<leftarrow> second_pass cutoff_time initial_results fs;
     dry_windows \<leftarrow> find_dry_windows cutoff_time fs;
     has_morning_rain \<leftarrow> any_rain (\<lambda>h. h < 12) fs;
     has_afternoon_rain \<leftarrow> any_rain (\<lambda>h. 12 \<le> h \<and> h < 18) fs;
     has_evening_rain \<leftarrow> any_rain (\<lambda>h. 18 \<le> h) fs;
     let res = res\<lparr>windows := windows res @ map (report has_morning_rain has_afternoon_rain) dry_windows\<rparr>;
     Some (res\<lparr>playable := 0 < length (windows res) \<and> max_wind res \<le> MAX_WIND_SPEED_MPH\<rparr>, fs)
   }"

subsection \<open>State file and notifications\<close>

text \<open>
  \<open>state.json\<close> holds one key, \<open>booking\<close>, which is \<open>null\<close> or a dictionary with the keys
  \<open>day\<close> and \<open>time\<close>. The file may be missing. Messages sent through Telegram are kept by
  their kind and the values interpolated into their text.
\<close>

record booking =
  b_day :: string
  b_time :: string

record bot_state =
  booking :: "booking option"

datatype advice =
  RainLikely  \<comment> \<open>\<open>Rain is likely - might want to cancel!\<close>\<close>
| HighWinds string  \<comment> \<open>\<open>High winds ({wind_speed_mph:.0f}mph) - might be tricky!\<close>\<close>
| LooksGood  \<comment> \<open>\<open>Conditions look good!\<close>\<close>

datatype notification =
  Stopped  \<comment> \<open>\<open>Stopped - no booking this week.\<close>\<close>
| Booked string string
    \<comment> \<open>\<open>Booked! I'll remind you on Friday about {day.capitalize()} at {time_str}.\<close>\<close>
| FetchError  \<comment> \<open>\<open>Error fetching weather update\<close>\<close>
| ReminderNoForecast string string
    \<comment> \<open>\<open>Reminder: You're booked for {day.capitalize()} at {time}\<close>,
        \<open>Couldn't get detailed forecast for that time.\<close>\<close>
| Reminder string string string string string advice
    \<comment> \<open>\<open>Tennis Reminder - {day.capitalize()} at {time}\<close>, then temperature, wind and
        rain chance, each printed with \<open>:.0f\<close>, and the advice\<close>

text \<open>The outside world of a run: the state file and the messages sent so far.\<close>

record world =
  state_file :: "bot_state option"
  sent :: "notification list"

definition load_state :: "world \<Rightarrow> bot_state" where
  "load_state w = (case state_file w of None \<Rightarrow> \<lparr>booking = None\<rparr> | Some st \<Rightarrow> st)"

definition save_state :: "bot_state \<Rightarrow> world \<Rightarrow> world" where
  "save_state st w = w\<lparr>state_file := Some st\<rparr>"

definition send_telegram_message :: "notification \<Rightarrow> world \<Rightarrow> world" where
  "send_telegram_message m w = w\<lparr>sent := sent w @ [m]\<rparr>"

text \<open>\<open>str.capitalize\<close> on the ASCII letters.\<close>

definition upper_char :: "char \<Rightarrow> char" where
  "upper_char c =
     (case map_of (zip ''abcdefghijklmnopqrstuvwxyz'' ''ABCDEFGHIJKLMNOPQRSTUVWXYZ'') c of
        None \<Rightarrow> c
      | Some d \<Rightarrow> d)"

definition capitalize :: "string \<Rightarrow> string" where
  "capitalize s = (case s of [] \<Rightarrow> [] | c # cs \<Rightarrow> upper_char c # lower cs)"

subsection \<open>Booking messages\<close>

definition is_digit :: "char \<Rightarrow> bool" where
  "is_digit c \<longleftrightarrow> c \<in> set ''0123456789''"

text \<open>\<open>int\<close> of a string of decimal digits.\<close>

definition digits_value :: "string \<Rightarrow> nat" where
  "digits_value s = foldl (\<lambda>n c. 10 * n + (of_char c - 48)) 0 s"

text \<open>
  \<open>re.search(r'(\d{1,2}):?(\d{2})?(?:\s*(?:am|pm))?', message)\<close>, as its groups 1 and 2.
  Everything after the first group is optional, so the match starts at the first digit
  of the message and each part takes what it can: one or two digits, then a colon if
  there is one, then two digits if there are two.
\<close>

definition time_match :: "string \<Rightarrow> (string \<times> string option) option" where
  "time_match message =
     (case dropWhile (\<lambda>c. \<not> is_digit c) message of
        [] \<Rightarrow> None
      | d # rest \<Rightarrow>
          (let (g1, rest1) =
                 (case rest of
                    [] \<Rightarrow> ([d], rest)
                  | e # r \<Rightarrow> if is_digit e then ([d, e], r) else ([d], rest));
               rest2 =
                 (case rest1 of
                    [] \<Rightarrow> rest1
                  | c # r \<Rightarrow> if c = CHR '':'' then r else rest1);
               g2 =
                 (case rest2 of
                    a # b # _ \<Rightarrow> if is_digit a \<and> is_digit b then Some [a, b] else None
                  | _ \<Rightarrow> None)
           in Some (g1, g2)))"

text \<open>The \<open>if\<close>/\<open>elif\<close> chain on \<open>pm\<close> and \<open>am\<close>.\<close>

definition adjust_hour :: "string \<Rightarrow> nat \<Rightarrow> nat" where
  "adjust_hour message h =
     (if substring_in ''pm'' message \<and> h < 12 then h + 12
      else if substring_in ''am'' message \<and> h = 12 then 0
      else if h < 9 \<and> \<not> substring_in ''am'' message \<and> \<not> substring_in ''pm'' message then h + 12
      else h)"

text \<open>The body of \<open>if 'booked' in message\<close>, on the lower-cased message.\<close>

definition parse_booking :: "string \<Rightarrow> booking option" where
  "parse_booking message =
     (let day = (if substring_in ''saturday'' message \<or> substring_in ''sat'' message
                 then ''saturday'' else ''sunday'')
      in case time_match message of
           None \<Rightarrow> None
         | Some (g1, g2) \<Rightarrow>
             (let hour = adjust_hour message (digits_value g1);
                  minute = (case g2 of None \<Rightarrow> ''00'' | Some m \<Rightarrow> m);
                  time_str = format_02d hour @ '':'' @ minute
              in Some \<lparr>b_day = day, b_time = time_str\<rparr>))"

text \<open>
  An update of \<open>getUpdates\<close>: without the key \<open>message\<close>, or with a message whose \<open>text\<close>
  may be absent.
\<close>

datatype update = NoMessage | Message "string option"

fun scan_updates :: "bot_state \<Rightarrow> update list \<Rightarrow> world \<Rightarrow> world" where
  "scan_updates state [] w = w"
| "scan_updates state (NoMessage # us) w = scan_updates state us w"
| "scan_updates state (Message txt # us) w =
     (let message = lower (case txt of None \<Rightarrow> '''' | Some t \<Rightarrow> t)
      in if substring_in ''stop'' message
         then send_telegram_message Stopped (save_state (state\<lparr>booking := None\<rparr>) w)
         else if substring_in ''booked'' message
         then (case parse_booking message of
                 None \<Rightarrow> scan_updates state us w
               | Some b \<Rightarrow>
                   send_telegram_message (Booked (capitalize (b_day b)) (b_time b))
                     (save_state (state\<lparr>booking := Some b\<rparr>) w))
         else scan_updates state us w)"

text \<open>\<open>check_for_bookings()\<close>, on the \<open>result\<close> list of the reply (empty when absent).\<close>

definition check_for_bookings :: "update list \<Rightarrow> world \<Rightarrow> world" where
  "check_for_bookings result w =
     (if result = [] then w else scan_updates (load_state w) result w)"

subsection \<open>Reminder\<close>

text \<open>\<open>d.date()\<close> as a day number, and \<open>d.weekday()\<close> (Monday is 0; day 0 was a Thursday).\<close>

definition date_of :: "int \<Rightarrow> int" where
  "date_of t = t div 86400"

definition weekday :: "int \<Rightarrow> int" where
  "weekday t = (date_of t + 3) mod 7"

text \<open>
  \<open>int(s)\<close> of a string of decimal digits, the only form \<open>check_for_bookings\<close> writes
  before the colon; \<open>None\<close> stands for \<open>ValueError\<close>.
\<close>

definition int_of_string :: "string \<Rightarrow> int option" where
  "int_of_string s =
     (if s \<noteq> [] \<and> list_all is_digit s then Some (int (digits_value s)) else None)"

text \<open>\<open>min(xs, key=k)\<close> on a non-empty list \<open>x # xs\<close>: the first of the least.\<close>

fun min_by :: "('a \<Rightarrow> int) \<Rightarrow> 'a \<Rightarrow> 'a list \<Rightarrow> 'a" where
  "min_by k x [] = x"
| "min_by k x (y # ys) = min_by k (if k y < k x then y else x) ys"

definition target_day_of :: "string \<Rightarrow> int \<Rightarrow> int" where
  "target_day_of day today =
     (if lower day = ''saturday'' then today + 86400 * ((5 - weekday today) mod 7)
      else today + 86400 * ((6 - weekday today) mod 7))"

definition relevant_forecasts :: "int \<Rightarrow> int \<Rightarrow> forecast list \<Rightarrow> forecast list" where
  "relevant_forecasts target_day target_hour fs =
     filter (\<lambda>f. date_of (dt f) = date_of target_day \<and>
                 \<bar>int (hour_of (dt f)) - target_hour\<bar> \<le> 2) fs"

text \<open>
  \<open>friday_reminder()\<close>, given the reply of \<open>get_weather_forecast()\<close> (its \<open>list\<close>, or \<open>None\<close>
  when the key is absent) and the time of \<open>datetime.now()\<close>.
\<close>

definition friday_reminder :: "forecast list option \<Rightarrow> int \<Rightarrow> world \<Rightarrow> world option" where
  "friday_reminder weather_data today w =
     (let state = load_state w
      in case booking state of
           None \<Rightarrow> Some w
         | Some b \<Rightarrow>
             (case weather_data of
                None \<Rightarrow> Some (send_telegram_message FetchError w)
              | Some fs \<Rightarrow> do {
                  let target_day = target_day_of (b_day b) today;
                  target_hour \<leftarrow> int_of_string (takeWhile (\<lambda>c. c \<noteq> CHR '':'') (b_time b));
                  case relevant_forecasts target_day target_hour fs of
                    [] \<Rightarrow>
                      Some (send_telegram_message
                        (ReminderNoForecast (capitalize (b_day b)) (b_time b)) w)
                  | f # rest \<Rightarrow> do {
                      let closest = min_by (\<lambda>x. \<bar>int (hour_of (dt x)) - target_hour\<bar>) f rest;
                      let wind_speed_mph = wind_mph_of closest;
                      rains \<leftarrow> will_rain_of closest;
                      let advice =
                        (if rains then RainLikely
                         else if MAX_WIND_SPEED_MPH < wind_speed_mph
                         then HighWinds (format_0f wind_speed_mph)
                         else LooksGood);
                      let w1 = send_telegram_message
                        (Reminder (capitalize (b_day b)) (b_time b)
                           (format_0f (main_temp closest)) (format_0f wind_speed_mph)
                           (format_0f (rain_prob_of closest)) advice) w;
                      Some (save_state (state\<lparr>booking := None\<rparr>) w1)
                    }
                }))"

subsection \<open>What the passes compute, stated on the records as fetched\<close>

text \<open>
  The definitions of this subsection are not translations of code: they describe the
  outcome of the passes in terms of the fetched fields, and the lemmas below relate them
  to the code.
\<close>

definition well_formed :: "forecast \<Rightarrow> bool" where
  "well_formed f \<longleftrightarrow> 30 < rain_prob_of f \<or> weather f \<noteq> Some []"

definition rainy :: "forecast \<Rightarrow> bool" where
  "rainy f \<longleftrightarrow> will_rain_of f = Some True"

definition in_scope :: "int \<Rightarrow> forecast \<Rightarrow> bool" where
  "in_scope cutoff_time f \<longleftrightarrow> \<not> out_of_scope cutoff_time (hour_of (dt f)) (dt f)"

definition good :: "forecast \<Rightarrow> bool" where
  "good f \<longleftrightarrow> \<not> rainy f \<and> wind_mph_of f \<le> MAX_WIND_SPEED_MPH"

text \<open>A record after the first pass.\<close>

definition enriched :: "forecast \<Rightarrow> forecast" where
  "enriched f =
     f\<lparr>hour := Some (hour_of (dt f)),
       will_rain := Some (rainy f),
       rain_prob := Some (rain_prob_of f),
       wind_mph := Some (wind_mph_of f),
       temp := Some (main_temp f)\<rparr>"

text \<open>The statistics of the second pass over the in-scope records \<open>ins\<close>.\<close>

definition stats :: "results \<Rightarrow> forecast list \<Rightarrow> results" where
  "stats res ins =
     res\<lparr>temp_range := (foldl min (fst (temp_range res)) (map main_temp ins),
                       foldl max (snd (temp_range res)) (map main_temp ins)),
         max_wind := foldl max (max_wind res) (map wind_mph_of ins),
         reasons := reasons res @
           map wind_reason (filter (\<lambda>w. MAX_WIND_SPEED_MPH < w) (map wind_mph_of ins))\<rparr>"

text \<open>The scan of the third pass over the in-scope records in chronological order.\<close>

definition open_window :: "forecast \<Rightarrow> window" where
  "open_window f =
     \<lparr>w_start = hour_of (dt f), w_end = hour_of (dt f) + 3,
      w_temp = main_temp f, w_wind = wind_mph_of f\<rparr>"

fun scan :: "window list \<times> window option \<Rightarrow> forecast list \<Rightarrow> window list \<times> window option" where
  "scan st [] = st"
| "scan (ws, None) (f # fs) = scan (if good f then (ws, Some (open_window f)) else (ws, None)) fs"
| "scan (ws, Some c) (f # fs) =
     scan (if good f then (ws, Some (c\<lparr>w_end := hour_of (dt f) + 3\<rparr>)) else (ws @ [c], None)) fs"

text \<open>
  The maximal runs of consecutive good records, each as its first record and the rest,
  and the window of a run: it starts at the hour of the first record, ends three hours
  after the hour of the last, and carries the temperature and wind of the first.
\<close>

function good_runs :: "forecast list \<Rightarrow> (forecast \<times> forecast list) list" where
  "good_runs [] = []"
| "good_runs (f # fs) =
     (if good f then (f, takeWhile good fs) # good_runs (dropWhile good fs) else good_runs fs)"
  by pat_completeness auto
termination
  by (relation "measure length") (auto simp: less_Suc_eq_le length_dropWhile_le)

definition window_of_run :: "forecast \<times> forecast list \<Rightarrow> window" where
  "window_of_run run =
     \<lparr>w_start = hour_of (dt (fst run)),
      w_end = hour_of (dt (last (fst run # snd run))) + 3,
      w_temp = main_temp (fst run), w_wind = wind_mph_of (fst run)\<rparr>"

definition morning :: "nat \<Rightarrow> bool" where
  "morning h \<longleftrightarrow> h < 12"

definition afternoon :: "nat \<Rightarrow> bool" where
  "afternoon h \<longleftrightarrow> 12 \<le> h \<and> h < 18"

definition has_rain :: "(nat \<Rightarrow> bool) \<Rightarrow> forecast list \<Rightarrow> bool" where
  "has_rain P fs \<longleftrightarrow> list_ex (\<lambda>f. rainy f \<and> P (hour_of (dt f))) fs"

text \<open>The in-scope records of a day in the order of the third pass.\<close>

definition in_scope_sorted :: "int \<Rightarrow> forecast list \<Rightarrow> forecast list" where
  "in_scope_sorted sunset_time fs = filter (in_scope (cutoff sunset_time)) (sort_key dt fs)"

text \<open>The analysis in terms of the above.\<close>

definition dry_windows_of :: "forecast list \<Rightarrow> int \<Rightarrow> window list" where
  "dry_windows_of fs sunset_time = flush (scan ([], None) (in_scope_sorted sunset_time fs))"

definition analysis :: "forecast list \<Rightarrow> int \<Rightarrow> results" where
  "analysis fs sunset_time =
     (let res = stats initial_results (filter (in_scope (cutoff sunset_time)) fs);
          ws = map (report (has_rain morning fs) (has_rain afternoon fs))
                 (dry_windows_of fs sunset_time)
      in res\<lparr>windows := ws, playable := ws \<noteq> [] \<and> max_wind res \<le> MAX_WIND_SPEED_MPH\<rparr>)"

text \<open>
  Two orders on windows: the first starts before the second; the first is over when the
  second starts.
\<close>

definition starts_before :: "window \<Rightarrow> window \<Rightarrow> bool" where
  "starts_before v w \<longleftrightarrow> w_start v < w_start w"

definition ends_before :: "window \<Rightarrow> window \<Rightarrow> bool" where
  "ends_before v w \<longleftrightarrow> w_end v \<le> w_start w"

text \<open>
  On records: the hour of the first is before the hour of the second; and a list in which
  any two records with another record between them are at least three hours apart.
\<close>

definition hour_before :: "forecast \<Rightarrow> forecast \<Rightarrow> bool" where
  "hour_before f g \<longleftrightarrow> hour_of (dt f) < hour_of (dt g)"

fun gapped :: "forecast list \<Rightarrow> bool" where
  "gapped (a # b # rest) =
     (list_all (\<lambda>c. hour_of (dt a) + 3 \<le> hour_of (dt c)) rest \<and> gapped (b # rest))"
| "gapped fs = True"

definition two_hours_apart :: "forecast \<Rightarrow> forecast \<Rightarrow> bool" where
  "two_hours_apart f g \<longleftrightarrow> hour_of (dt f) + 2 \<le> hour_of (dt g)"

subsection \<open>Example days\<close>

text \<open>A record as fetched: none of the five calculated keys.\<close>

definition fetched ::
  "int \<Rightarrow> real \<Rightarrow> real \<Rightarrow> real option \<Rightarrow> string option list option \<Rightarrow> forecast"
where
  "fetched t tmp spd p w =
     \<lparr>dt = t, main_temp = tmp, wind_speed = spd, pop = p, weather = w,
      hour = None, will_rain = None, rain_prob = None, wind_mph = None, temp = None\<rparr>"

text \<open>
  Three-hourly records at 09:00, 12:00 and 15:00 of day 0, dry, of which the middle one
  has wind above the threshold (9 m/s is 20.1 mph); sunset at 20:00 is \<open>72000\<close>.
\<close>

definition wind_spike_day :: "forecast list" where
  "wind_spike_day =
     [fetched 32400 12 4 (Some 0) (Some [Some ''Clouds'']),
      fetched 43200 14 9 (Some 0) (Some [Some ''Clouds'']),
      fetched 54000 13 3 (Some 0.1) (Some [Some ''Clear''])]"

text \<open>Three calm dry records at 12:00, 09:00 and 15:00, in the order they are listed.\<close>

definition calm_day :: "forecast list" where
  "calm_day =
     [fetched 43200 14 2 (Some 0) (Some [Some ''Clouds'']),
      fetched 32400 12 4 (Some 0) (Some [Some ''Clouds'']),
      fetched 54000 13 3 None None]"

text \<open>Hourly records at 09:00, 10:00 and 11:00, the middle one with rain.\<close>

definition hourly_day :: "forecast list" where
  "hourly_day =
     [fetched 32400 12 4 (Some 0) (Some [Some ''Clouds'']),
      fetched 36000 14 2 (Some 0) (Some [Some ''Rain'']),
      fetched 39600 13 3 None None]"

text \<open>Two-hourly records at 09:00, 11:00 and 13:00, the middle one with rain.\<close>

definition two_hourly_day :: "forecast list" where
  "two_hourly_day =
     [fetched 32400 12 4 (Some 0) (Some [Some ''Clouds'']),
      fetched 39600 14 2 (Some 0) (Some [Some ''Rain'']),
      fetched 46800 13 3 None None]"

text \<open>
  A dry record at 09:00 and a rainy one at 15:00; with sunset at 14:00 (\<open>50400\<close>) the
  second is after the cutoff.
\<close>

definition morning_only :: "forecast list" where
  "morning_only = [fetched 32400 12 4 (Some 0) (Some [Some ''Clouds''])]"

definition morning_and_late_rain :: "forecast list" where
  "morning_and_late_rain =
     [fetched 32400 12 4 (Some 0) (Some [Some ''Clouds'']),
      fetched 54000 11 3 (Some 0.8) (Some [Some ''Rain''])]"

text \<open>Three windy records: 10 m/s is 22.4 mph, 8 m/s is 17.9 mph.\<close>

definition windy_day :: "forecast list" where
  "windy_day =
     [fetched 32400 12 10 (Some 0) (Some [Some ''Clouds'']),
      fetched 43200 14 8 (Some 0) (Some [Some ''Clouds'']),
      fetched 54000 13 10 (Some 0) (Some [Some ''Clouds''])]"

text \<open>Records at 08:00 and at 23:00, both outside the playing hours.\<close>

definition off_hours_day :: "forecast list" where
  "off_hours_day =
     [fetched 28800 9 4 (Some 0) (Some [Some ''Clouds'']),
      fetched 82800 8 3 (Some 0) (Some [Some ''Clear''])]"

text \<open>
  A stored booking for Sunday at 15:00 and nothing sent yet; a world without state file.
\<close>

definition booked_world :: world where
  "booked_world =
     \<lparr>state_file = Some \<lparr>booking = Some \<lparr>b_day = ''sunday'', b_time = ''15:00''\<rparr>\<rparr>, sent = []\<rparr>"

definition fresh_world :: world where
  "fresh_world = \<lparr>state_file = None, sent = []\<rparr>"

text \<open>
  Day 1 (2 January 1970) was a Friday and day 3 the Sunday after it; day 4 was a Monday.
  The first reply has records for that Sunday at 12:00, 15:00 and 18:00; the second has
  records for the Monday and the Tuesday only.
\<close>

definition friday_morning :: int where
  "friday_morning = 1 * 86400 + 36000"

definition monday_morning :: int where
  "monday_morning = 4 * 86400 + 36000"

definition sunday_forecast :: "forecast list" where
  "sunday_forecast =
     [fetched (3 * 86400 + 43200) 11 4 (Some 0) (Some [Some ''Clouds'']),
      fetched (3 * 86400 + 54000) 12.5 4 (Some 0.2) (Some [Some ''Clouds'']),
      fetched (3 * 86400 + 64800) 10 3 (Some 0) (Some [Some ''Clear''])]"

definition weekdays_forecast :: "forecast list" where
  "weekdays_forecast =
     [fetched (4 * 86400 + 54000) 12 4 (Some 0) (Some [Some ''Clouds'']),
      fetched (5 * 86400 + 54000) 13 3 (Some 0) (Some [Some ''Clear''])]"

lemma will_rain_of_well_formed: "will_rain_of f \<noteq> None \<longleftrightarrow> well_formed f"
  by (auto simp: will_rain_of_def well_formed_def weather_main_def split: option.splits list.splits)

lemma enrich_eq: "enrich f = (if well_formed f then Some (enriched f) else None)"
proof (cases "will_rain_of f")
  case None
  then show ?thesis using will_rain_of_well_formed [of f] by (simp add: enrich_def)
next
  case (Some r)
  then have "well_formed f" using will_rain_of_well_formed [of f] by simp
  moreover have "rainy f = r" using Some by (simp add: rainy_def)
  ultimately show ?thesis using Some by (simp add: enrich_def enriched_def)
qed

lemma first_pass_eq:
  "first_pass fs = (if list_all well_formed fs then Some (map enriched fs) else None)"
  by (induction fs) (simp_all add: enrich_eq)

lemma track_enriched:
  "track c res (enriched f) =
     Some (if in_scope c f then
       (let res1 = res\<lparr>temp_range := (min (fst (temp_range res)) (main_temp f), max (snd (temp_range res)) (main_temp f)),
                      max_wind := max (max_wind res) (wind_mph_of f)\<rparr>
        in if MAX_WIND_SPEED_MPH < wind_mph_of f \<and> ''wind too high'' \<notin> set (reasons res1)
             then res1\<lparr>reasons := reasons res1 @ [wind_reason (wind_mph_of f)]\<rparr>
             else res1)
      else res)"
  by (simp add: track_def enriched_def in_scope_def Let_def)

lemma wind_reason_neq: "wind_reason w \<noteq> ''wind too high''"
  by (simp add: wind_reason_def)

lemma second_pass_enriched:
  "''wind too high'' \<notin> set (reasons res) \<Longrightarrow>
   second_pass c res (map enriched fs) = Some (stats res (filter (in_scope c) fs))"
proof (induction fs arbitrary: res)
  case Nil
  show ?case by (simp add: stats_def)
next
  case (Cons f fs)
  show ?case
  proof (cases "in_scope c f")
    case False
    then show ?thesis using Cons by (simp add: track_enriched)
  next
    case True
    let ?r1 = "res\<lparr>temp_range := (min (fst (temp_range res)) (main_temp f), max (snd (temp_range res)) (main_temp f)),
                      max_wind := max (max_wind res) (wind_mph_of f)\<rparr>"
    let ?r2 = "if MAX_WIND_SPEED_MPH < wind_mph_of f then ?r1\<lparr>reasons := reasons ?r1 @ [wind_reason (wind_mph_of f)]\<rparr> else ?r1"
    have t: "track c res (enriched f) = Some ?r2"
      using True Cons.prems by (simp add: track_enriched Let_def)
    have n: "''wind too high'' \<notin> set (reasons ?r2)"
      using Cons.prems wind_reason_neq [of "wind_mph_of f"] by auto
    have "second_pass c res (map enriched (f # fs)) = second_pass c ?r2 (map enriched fs)"
      using t by simp
    also have "\<dots> = Some (stats ?r2 (filter (in_scope c) fs))"
      using Cons.IH [OF n] .
    also have "stats ?r2 (filter (in_scope c) fs) = stats res (filter (in_scope c) (f # fs))"
      using True by (simp add: stats_def)
    finally show ?thesis .
  qed
qed

lemma scan_step_enriched:
  "scan_step c st (enriched f) =
     Some (if in_scope c f then
       (if good f then
          (case snd st of None \<Rightarrow> (fst st, Some (open_window f))
           | Some w \<Rightarrow> (fst st, Some (w\<lparr>w_end := hour_of (dt f) + 3\<rparr>)))
        else (case snd st of None \<Rightarrow> st | Some w \<Rightarrow> (fst st @ [w], None)))
      else st)"
  by (cases st) (auto simp: scan_step_def enriched_def in_scope_def good_def open_window_def Let_def
      split: option.splits)

lemma third_pass_enriched:
  "third_pass c st (map enriched fs) = Some (scan st (filter (in_scope c) fs))"
proof (induction fs arbitrary: st)
  case Nil
  show ?case by simp
next
  case (Cons f fs)
  obtain ws cur where st: "st = (ws, cur)" by (cases st)
  show ?case using Cons.IH
    by (cases cur) (simp_all add: st scan_step_enriched)
qed

lemma any_rain_enriched:
  "any_rain P (map enriched fs) = Some (has_rain P fs)"
  by (induction fs) (auto simp: has_rain_def enriched_def)

lemma dt_enriched: "dt (enriched f) = dt f"
  by (simp add: enriched_def)

lemma insort_key_enriched:
  "insort_key dt (enriched f) (map enriched fs) = map enriched (insort_key dt f fs)"
  by (induction fs) (simp_all add: dt_enriched)

lemma sort_key_enriched: "sort_key dt (map enriched fs) = map enriched (sort_key dt fs)"
  by (induction fs) (simp_all add: insort_key_enriched)

lemma find_dry_windows_enriched:
  "find_dry_windows (cutoff s) (map enriched fs) = Some (flush (scan ([], None) (in_scope_sorted s fs)))"
  by (simp add: find_dry_windows_def sort_key_enriched third_pass_enriched in_scope_sorted_def)


lemma analyze_day_weather_eq:
  "analyze_day_weather fs n s =
     (if list_all well_formed fs then Some (analysis fs s, map enriched fs) else None)"
proof (cases "list_all well_formed fs")
  case False
  then show ?thesis by (simp add: analyze_day_weather_def first_pass_eq)
next
  case True
  have n: "''wind too high'' \<notin> set (reasons initial_results)"
    by (simp add: initial_results_def)
  have w: "windows (stats initial_results ins) = []" for ins
    by (simp add: stats_def initial_results_def)
  show ?thesis
    using True
    by (simp add: analyze_day_weather_def first_pass_eq second_pass_enriched [OF n]
        find_dry_windows_enriched any_rain_enriched analysis_def dry_windows_of_def w Let_def
        morning_def [abs_def] afternoon_def [abs_def])
qed

lemma scan_good_prefix:
  "\<forall>g \<in> set gs. good g \<Longrightarrow>
   scan (ws, Some c) (gs @ rest) =
     scan (ws, Some (if gs = [] then c else c\<lparr>w_end := hour_of (dt (last gs)) + 3\<rparr>)) rest"
  by (induction gs arbitrary: c) auto

lemma scan_close:
  "rest = [] \<or> \<not> good (hd rest) \<Longrightarrow>
   flush (scan (ws, Some c) rest) = flush (scan (ws @ [c], None) rest)"
  by (cases rest) (auto simp: flush_def)

lemma open_window_extend:
  "(if gs = [] then open_window f else (open_window f)\<lparr>w_end := hour_of (dt (last gs)) + 3\<rparr>)
     = window_of_run (f, gs)"
  by (simp add: open_window_def window_of_run_def)

lemma dropWhile_head: "dropWhile P xs = [] \<or> \<not> P (hd (dropWhile P xs))"
  by (metis hd_dropWhile)

lemma flush_scan_runs:
  "flush (scan (ws, None) ins) = ws @ map window_of_run (good_runs ins)"
proof (induction ins arbitrary: ws rule: good_runs.induct)
  case 1
  show ?case by (simp add: flush_def)
next
  case (2 f fs)
  show ?case
  proof (cases "good f")
    case False
    then show ?thesis using "2.IH"(2) [of ws] by simp
  next
    case True
    let ?gs = "takeWhile good fs" and ?rest = "dropWhile good fs"
    have g: "\<forall>g \<in> set ?gs. good g"
      by (auto dest: set_takeWhileD)
    have "scan (ws, None) (f # fs) = scan (ws, Some (open_window f)) (?gs @ ?rest)"
      using True by simp
    also have "\<dots> = scan (ws, Some (window_of_run (f, ?gs))) ?rest"
      unfolding scan_good_prefix [OF g] open_window_extend ..
    finally have "flush (scan (ws, None) (f # fs)) = flush (scan (ws @ [window_of_run (f, ?gs)], None) ?rest)"
      using scan_close [OF dropWhile_head [of good fs]] by simp
    also have "\<dots> = (ws @ [window_of_run (f, ?gs)]) @ map window_of_run (good_runs ?rest)"
      using True by (rule "2.IH"(1))
    finally show ?thesis using True by simp
  qed
qed

lemma dry_windows_of_runs:
  "dry_windows_of fs s = map window_of_run (good_runs (in_scope_sorted s fs))"
  using flush_scan_runs [of "[]"] by (simp add: dry_windows_of_def)

lemma foldl_max_Max: "foldl max (m::real) ws = Max (insert m (set ws))"
proof (induction ws arbitrary: m)
  case Nil
  show ?case by simp
next
  case (Cons w ws)
  have "Max (insert (max m w) (set ws)) = Max (insert m (insert w (set ws)))"
    by (cases "set ws = {}") (simp_all add: max.assoc)
  then show ?case using Cons.IH [of "max m w"] by simp
qed

lemma foldl_max_le: "foldl max (m::real) ws \<le> b \<longleftrightarrow> m \<le> b \<and> (\<forall>w \<in> set ws. w \<le> b)"
  by (induction ws arbitrary: m) auto

lemma max_wind_analysis:
  "max_wind (analysis fs s) = foldl max 0 (map wind_mph_of (filter (in_scope (cutoff s)) fs))"
  by (simp add: analysis_def stats_def initial_results_def Let_def)

lemma playable_analysis:
  "playable (analysis fs s) \<longleftrightarrow>
     windows (analysis fs s) \<noteq> [] \<and> max_wind (analysis fs s) \<le> MAX_WIND_SPEED_MPH"
  by (simp add: analysis_def stats_def initial_results_def Let_def)

text \<open>
  Claim C1. Whenever the analysis returns (it does on every list of well-formed records),
  \<open>playable\<close> holds exactly when at least one window was produced and no in-scope record
  has wind above the threshold; \<open>max_wind\<close> is the maximum over all in-scope records
  (and the initial 0). In particular an in-scope wind spike makes the day not playable,
  whatever windows were found.
\<close>

theorem playable_iff_window_and_calm:
  assumes "list_all well_formed fs"
  shows "\<exists>res fs'. analyze_day_weather fs n s = Some (res, fs') \<and>
     max_wind res = Max (insert 0 (wind_mph_of ` {f \<in> set fs. in_scope (cutoff s) f})) \<and>
     (playable res \<longleftrightarrow>
        windows res \<noteq> [] \<and>
        (\<forall>f \<in> set fs. in_scope (cutoff s) f \<longrightarrow> wind_mph_of f \<le> MAX_WIND_SPEED_MPH)) \<and>
     ((\<exists>f \<in> set fs. in_scope (cutoff s) f \<and> MAX_WIND_SPEED_MPH < wind_mph_of f) \<longrightarrow>
        \<not> playable res)"
proof -
  let ?res = "analysis fs s"
  have r: "analyze_day_weather fs n s = Some (?res, map enriched fs)"
    using assms by (simp add: analyze_day_weather_eq)
  have m: "max_wind ?res = Max (insert 0 (wind_mph_of ` {f \<in> set fs. in_scope (cutoff s) f}))"
    by (simp add: max_wind_analysis foldl_max_Max)
  have le: "max_wind ?res \<le> MAX_WIND_SPEED_MPH \<longleftrightarrow>
      (\<forall>f \<in> set fs. in_scope (cutoff s) f \<longrightarrow> wind_mph_of f \<le> MAX_WIND_SPEED_MPH)"
    by (auto simp: max_wind_analysis foldl_max_le MAX_WIND_SPEED_MPH_def)
  have p: "playable ?res \<longleftrightarrow> windows ?res \<noteq> [] \<and>
      (\<forall>f \<in> set fs. in_scope (cutoff s) f \<longrightarrow> wind_mph_of f \<le> MAX_WIND_SPEED_MPH)"
    using playable_analysis [of fs s] le by simp
  have "(\<exists>f \<in> set fs. in_scope (cutoff s) f \<and> MAX_WIND_SPEED_MPH < wind_mph_of f) \<longrightarrow>
      \<not> playable ?res"
    using p by (auto simp: not_le [symmetric])
  with r m p show ?thesis by blast
qed

lemmas scope_simps =
  in_scope_def out_of_scope_def cutoff_def hour_of_def
  PLAYING_HOURS_START_def PLAYING_HOURS_END_def HOURS_BEFORE_SUNSET_def

lemmas fetched_simps =
  fetched_def well_formed_def rain_prob_of_def

theorem playable_iff_window_and_calm_witness:
  "list_all well_formed wind_spike_day \<and>
   (\<exists>res fs'. analyze_day_weather wind_spike_day ''Saturday'' 72000 = Some (res, fs') \<and>
     max_wind res = Max (insert 0 (wind_mph_of ` {f \<in> set wind_spike_day. in_scope (cutoff 72000) f})) \<and>
     (playable res \<longleftrightarrow>
        windows res \<noteq> [] \<and>
        (\<forall>f \<in> set wind_spike_day. in_scope (cutoff 72000) f \<longrightarrow> wind_mph_of f \<le> MAX_WIND_SPEED_MPH)) \<and>
     ((\<exists>f \<in> set wind_spike_day. in_scope (cutoff 72000) f \<and> MAX_WIND_SPEED_MPH < wind_mph_of f) \<longrightarrow>
        \<not> playable res))"
proof -
  have h: "list_all well_formed wind_spike_day"
    by (simp add: wind_spike_day_def fetched_simps)
  show ?thesis
    using h playable_iff_window_and_calm [OF h, of "''Saturday''" 72000] by blast
qed

lemmas analyze_simps =
  analyze_day_weather_def enrich_def will_rain_of_def weather_main_def lower_def lower_char_def
  wind_mph_of_def track_def initial_results_def MAX_WIND_SPEED_MPH_def find_dry_windows_def
  scan_step_def flush_def report_def window_desc_def format_02d_def str_nat.simps digit_char_def
  wind_reason_def format_0f_def round_half_even_def Let_def

lemma in_scope_sorted_Nil:
  "\<forall>f \<in> set fs. \<not> in_scope (cutoff s) f \<Longrightarrow> in_scope_sorted s fs = []"
  by (simp add: in_scope_sorted_def)

text \<open>
  Claim C8. With no in-scope record the analysis returns the temperature range still at
  its sentinel \<open>(999, -999)\<close>, no window, and \<open>playable\<close> false.
\<close>

theorem no_in_scope_record:
  assumes "list_all well_formed fs"
    and "\<forall>f \<in> set fs. \<not> in_scope (cutoff s) f"
  shows "\<exists>res fs'. analyze_day_weather fs n s = Some (res, fs') \<and>
     temp_range res = (999, -999) \<and> windows res = [] \<and> \<not> playable res"
proof -
  have e: "filter (in_scope (cutoff s)) fs = []"
    using assms(2) by simp
  have "temp_range (analysis fs s) = (999, -999)"
    by (simp add: analysis_def e stats_def initial_results_def Let_def)
  moreover have "windows (analysis fs s) = []"
    by (simp add: analysis_def dry_windows_of_def in_scope_sorted_Nil [OF assms(2)] flush_def Let_def)
  moreover have "\<not> playable (analysis fs s)"
    by (simp add: analysis_def dry_windows_of_def in_scope_sorted_Nil [OF assms(2)] flush_def Let_def)
  ultimately show ?thesis
    using assms(1) by (simp add: analyze_day_weather_eq)
qed

theorem no_in_scope_record_witness:
  "list_all well_formed off_hours_day \<and>
   list_all (\<lambda>f. \<not> in_scope (cutoff 72000) f) off_hours_day \<and>
   (\<exists>res fs'. analyze_day_weather off_hours_day ''Sunday'' 72000 = Some (res, fs') \<and>
     temp_range res = (999, -999) \<and> windows res = [] \<and> \<not> playable res)"
proof -
  have h1: "list_all well_formed off_hours_day"
    by (simp add: off_hours_day_def fetched_simps)
  have h2: "\<forall>f \<in> set off_hours_day. \<not> in_scope (cutoff 72000) f"
    by (simp add: off_hours_day_def fetched_def scope_simps)
  show ?thesis
    using h1 h2 no_in_scope_record [OF h1 h2, of "''Sunday''"] by (simp add: list_all_iff)
qed

text \<open>
  Claim C5 fails on the code. The guard meant to keep one wind reason looks for the
  string \<open>wind too high\<close>, which is never what is appended, so every in-scope record over
  the threshold adds a reason of its own, with its own wind and not the peak: three windy
  records give three reasons, two of them equal, one below the peak.
\<close>

theorem wind_reasons_repeat:
  "map_option reasons (map_option fst (analyze_day_weather windy_day ''Saturday'' 72000)) =
     Some [''wind speeds up to 22mph'', ''wind speeds up to 18mph'', ''wind speeds up to 22mph'']"
  by (simp add: windy_day_def fetched_def rain_prob_of_def scope_simps analyze_simps)

text \<open>
  Claim C9 as stated fails: the first pass writes five keys into every record of the
  caller's list.
\<close>

theorem input_records_enriched:
  "map_option snd (analyze_day_weather morning_only ''Saturday'' 72000) =
     Some [(fetched 32400 12 4 (Some 0) (Some [Some ''Clouds'']))
             \<lparr>hour := Some 9, will_rain := Some False, rain_prob := Some 0,
              wind_mph := Some 8.948, temp := Some 12\<rparr>] \<and>
   map_option snd (analyze_day_weather morning_only ''Saturday'' 72000) \<noteq> Some morning_only"
  by (simp add: morning_only_def fetched_def rain_prob_of_def scope_simps analyze_simps)

lemma will_rain_enriched: "well_formed f \<Longrightarrow> will_rain (enriched f) = will_rain_of f"
  using will_rain_of_well_formed [of f] by (auto simp: enriched_def rainy_def)

text \<open>
  Claim C9, amended. The analysis leaves the fetched fields of every record as they were
  and keeps the list's length and order; on every record it sets the five calculated
  keys \<open>hour\<close>, \<open>will_rain\<close>, \<open>rain_prob\<close>, \<open>wind_mph\<close> and \<open>temp\<close>.
\<close>

theorem fetched_fields_kept:
  assumes "analyze_day_weather fs n s = Some (res, fs')"
  shows "list_all2 (\<lambda>f f'.
      dt f' = dt f \<and> main_temp f' = main_temp f \<and> wind_speed f' = wind_speed f \<and>
      pop f' = pop f \<and> weather f' = weather f \<and>
      hour f' = Some (hour_of (dt f)) \<and> will_rain f' = will_rain_of f \<and>
      rain_prob f' = Some (rain_prob_of f) \<and> wind_mph f' = Some (wind_mph_of f) \<and>
      temp f' = Some (main_temp f)) fs fs'"
proof -
  have wf: "list_all well_formed fs" and fs': "fs' = map enriched fs"
    using assms by (auto simp: analyze_day_weather_eq split: if_splits)
  have "\<forall>f \<in> set fs. will_rain (enriched f) = will_rain_of f"
    using wf will_rain_enriched by (simp add: list_all_iff)
  then show ?thesis
    unfolding fs' list_all2_map2 by (intro list_all2_all_nthI) (simp_all add: enriched_def)
qed

theorem fetched_fields_kept_witness:
  "analyze_day_weather morning_only ''Saturday'' 72000 =
     Some (analysis morning_only 72000, map enriched morning_only) \<and>
   list_all2 (\<lambda>f f'.
      dt f' = dt f \<and> main_temp f' = main_temp f \<and> wind_speed f' = wind_speed f \<and>
      pop f' = pop f \<and> weather f' = weather f \<and>
      hour f' = Some (hour_of (dt f)) \<and> will_rain f' = will_rain_of f \<and>
      rain_prob f' = Some (rain_prob_of f) \<and> wind_mph f' = Some (wind_mph_of f) \<and>
      temp f' = Some (main_temp f)) morning_only (map enriched morning_only)"
proof -
  have h: "analyze_day_weather morning_only ''Saturday'' 72000 =
      Some (analysis morning_only 72000, map enriched morning_only)"
    by (simp add: analyze_day_weather_eq morning_only_def fetched_simps)
  show ?thesis
    using h fetched_fields_kept [OF h] by blast
qed

lemma set_in_scope_sorted:
  "set (in_scope_sorted s fs) = {f \<in> set fs. in_scope (cutoff s) f}"
  by (simp add: in_scope_sorted_def)

lemma sorted_in_scope_sorted: "sorted (map dt (in_scope_sorted s fs))"
  unfolding in_scope_sorted_def by (rule sorted_filter) (rule sorted_sort_key)

lemma in_scope_sorted_filter:
  "in_scope_sorted s fs = sort_key dt (filter (in_scope (cutoff s)) fs)"
  by (simp add: in_scope_sorted_def filter_sort)

lemma sorted_hd_Min: "sorted (x # xs) \<Longrightarrow> Min (set (x # xs)) = (x::int)"
  by (intro Min_eqI) auto

lemma sorted_last_Max: "sorted xs \<Longrightarrow> xs \<noteq> [] \<Longrightarrow> Max (set xs) = (last xs::int)"
proof (induction xs)
  case Nil
  then show ?case by simp
next
  case (Cons x xs)
  show ?case
  proof (cases "xs = []")
    case True
    then show ?thesis by simp
  next
    case False
    then have "Max (set xs) = last xs" using Cons by simp
    moreover have "x \<le> last xs" using Cons.prems(1) False by simp
    ultimately show ?thesis using False by (simp add: max_def)
  qed
qed

lemma good_runs_all_good:
  "\<forall>g \<in> set (f # rest). good g \<Longrightarrow> good_runs (f # rest) = [(f, rest)]"
proof -
  assume g: "\<forall>g \<in> set (f # rest). good g"
  then have t: "takeWhile good rest = rest" and d: "dropWhile good rest = []"
    by (simp_all add: takeWhile_eq_all_conv)
  have "good_runs (f # rest) = (f, takeWhile good rest) # good_runs (dropWhile good rest)"
    using g by simp
  then show ?thesis unfolding t d by simp
qed

lemma windows_analysis:
  "windows (analysis fs s) =
     map (report (has_rain morning fs) (has_rain afternoon fs)) (dry_windows_of fs s)"
  by (simp add: analysis_def Let_def)

lemma window_desc_suffix:
  "\<exists>sfx \<in> {'''', '' (before rain)'', '' (after rain)''}.
     window_desc m a w = format_02d (w_start w) @ '':00-'' @ format_02d (w_end w) @ '':00'' @ sfx"
  by (simp add: window_desc_def)

text \<open>
  Claim C2. When there is an in-scope record and every in-scope record is dry with wind
  at or below the threshold, the analysis returns exactly one window; its text runs from
  the hour of the earliest in-scope record to the hour of the latest plus 3 (followed by
  the rain annotation, if any), and \<open>playable\<close> is true.
\<close>

theorem all_good_one_window:
  assumes "list_all well_formed fs"
    and "\<exists>f \<in> set fs. in_scope (cutoff s) f"
    and "\<forall>f \<in> set fs. in_scope (cutoff s) f \<longrightarrow> \<not> rainy f \<and> wind_mph_of f \<le> MAX_WIND_SPEED_MPH"
  shows "\<exists>res fs' w. analyze_day_weather fs n s = Some (res, fs') \<and> windows res = [w] \<and>
     (\<exists>sfx \<in> {'''', '' (before rain)'', '' (after rain)''}.
        time w =
          format_02d (hour_of (Min (dt ` {f \<in> set fs. in_scope (cutoff s) f}))) @ '':00-'' @
          format_02d (hour_of (Max (dt ` {f \<in> set fs. in_scope (cutoff s) f})) + 3) @ '':00'' @ sfx) \<and>
     playable res"
proof -
  let ?ins = "in_scope_sorted s fs"
  let ?S = "{f \<in> set fs. in_scope (cutoff s) f}"
  have ne: "?ins \<noteq> []"
    using assms(2) set_in_scope_sorted [of s fs] by (metis (mono_tags, lifting) empty_iff list.set(1) mem_Collect_eq)
  then obtain f rest where ins: "?ins = f # rest"
    by (cases ?ins) auto
  have g: "\<forall>g \<in> set (f # rest). good g"
    using assms(3) set_in_scope_sorted [of s fs] by (auto simp: ins good_def)
  let ?w = "window_of_run (f, rest)"
  have dw: "dry_windows_of fs s = [?w]"
    using good_runs_all_good [OF g] by (simp add: dry_windows_of_runs ins)
  have dts: "set (map dt ?ins) = dt ` ?S"
    by (simp add: set_in_scope_sorted)
  have srt: "sorted (map dt (f # rest))"
    using sorted_in_scope_sorted [of s fs] by (simp add: ins)
  have "Min (set (map dt (f # rest))) = dt f"
    using sorted_hd_Min [of "dt f" "map dt rest"] srt by simp
  then have mn: "Min (dt ` ?S) = dt f"
    using dts by (simp add: ins)
  have "Max (set (map dt (f # rest))) = last (map dt (f # rest))"
    using sorted_last_Max [OF srt] by simp
  then have mx: "Max (dt ` ?S) = dt (last (f # rest))"
    using dts by (simp add: ins last_map)
  let ?res = "analysis fs s"
  let ?rw = "report (has_rain morning fs) (has_rain afternoon fs) ?w"
  have r: "analyze_day_weather fs n s = Some (?res, map enriched fs)"
    using assms(1) by (simp add: analyze_day_weather_eq)
  have w: "windows ?res = [?rw]"
    by (simp add: windows_analysis dw)
  have t: "\<exists>sfx \<in> {'''', '' (before rain)'', '' (after rain)''}.
      time ?rw = format_02d (hour_of (Min (dt ` ?S))) @ '':00-'' @
        format_02d (hour_of (Max (dt ` ?S)) + 3) @ '':00'' @ sfx"
    using window_desc_suffix [of "has_rain morning fs" "has_rain afternoon fs" ?w]
    by (simp add: report_def mn mx window_of_run_def)
  have "max_wind ?res \<le> MAX_WIND_SPEED_MPH"
    using assms(3) by (auto simp: max_wind_analysis foldl_max_le MAX_WIND_SPEED_MPH_def)
  then have p: "playable ?res"
    using w by (simp add: playable_analysis)
  from r w t p show ?thesis by blast
qed

theorem all_good_one_window_witness:
  "list_all well_formed calm_day \<and>
   list_ex (in_scope (cutoff 72000)) calm_day \<and>
   list_all (\<lambda>f. in_scope (cutoff 72000) f \<longrightarrow>
      \<not> rainy f \<and> wind_mph_of f \<le> MAX_WIND_SPEED_MPH) calm_day \<and>
   (\<exists>res fs' w. analyze_day_weather calm_day ''Saturday'' 72000 = Some (res, fs') \<and>
      windows res = [w] \<and>
      (\<exists>sfx \<in> {'''', '' (before rain)'', '' (after rain)''}.
        time w =
          format_02d (hour_of (Min (dt ` {f \<in> set calm_day. in_scope (cutoff 72000) f}))) @ '':00-'' @
          format_02d (hour_of (Max (dt ` {f \<in> set calm_day. in_scope (cutoff 72000) f})) + 3) @ '':00'' @ sfx) \<and>
      playable res)"
proof -
  have h1: "list_all well_formed calm_day"
    by (simp add: calm_day_def fetched_simps)
  have h2: "\<exists>f \<in> set calm_day. in_scope (cutoff 72000) f"
    by (simp add: calm_day_def fetched_def scope_simps)
  have h3: "\<forall>f \<in> set calm_day. in_scope (cutoff 72000) f \<longrightarrow>
      \<not> rainy f \<and> wind_mph_of f \<le> MAX_WIND_SPEED_MPH"
    by (simp add: calm_day_def fetched_def rainy_def rain_prob_of_def will_rain_of_def
        weather_main_def lower_def lower_char_def wind_mph_of_def MAX_WIND_SPEED_MPH_def)
  have c: "\<exists>res fs' w. analyze_day_weather calm_day ''Saturday'' 72000 = Some (res, fs') \<and>
      windows res = [w] \<and>
      (\<exists>sfx \<in> {'''', '' (before rain)'', '' (after rain)''}.
        time w =
          format_02d (hour_of (Min (dt ` {f \<in> set calm_day. in_scope (cutoff 72000) f}))) @ '':00-'' @
          format_02d (hour_of (Max (dt ` {f \<in> set calm_day. in_scope (cutoff 72000) f})) + 3) @ '':00'' @ sfx) \<and>
      playable res"
    by (rule all_good_one_window [OF h1 h2 h3])
  have "list_ex (in_scope (cutoff 72000)) calm_day"
    using h2 by (simp add: list_ex_iff)
  moreover have "list_all (\<lambda>f. in_scope (cutoff 72000) f \<longrightarrow>
      \<not> rainy f \<and> wind_mph_of f \<le> MAX_WIND_SPEED_MPH) calm_day"
    using h3 by (simp add: list_all_iff)
  ultimately show ?thesis
    using h1 c by blast
qed

lemma calm_day_analysis:
  "map_option fst (analyze_day_weather calm_day ''Saturday'' 72000) =
     Some \<lparr>playable = True,
           windows = [\<lparr>time = ''09:00-18:00'', r_temp = 12, r_wind = 8.948\<rparr>],
           reasons = [], temp_range = (12, 14), max_wind = 8.948\<rparr>"
  by (simp add: calm_day_def fetched_def rain_prob_of_def scope_simps analyze_simps)

lemma wind_spike_day_analysis:
  "map_option fst (analyze_day_weather wind_spike_day ''Saturday'' 72000) =
     Some \<lparr>playable = False,
           windows = [\<lparr>time = ''09:00-12:00'', r_temp = 12, r_wind = 8.948\<rparr>,
                      \<lparr>time = ''15:00-18:00'', r_temp = 13, r_wind = 6.711\<rparr>],
           reasons = [''wind speeds up to 20mph''], temp_range = (12, 14), max_wind = 20.133\<rparr>"
  by (simp add: wind_spike_day_def fetched_def rain_prob_of_def scope_simps analyze_simps)

lemma good_runs_subset:
  "r \<in> set (good_runs fs) \<Longrightarrow> fst r \<in> set fs \<and> set (snd r) \<subseteq> set fs"
proof (induction fs arbitrary: r rule: good_runs.induct)
  case 1
  then show ?case by simp
next
  case (2 f fs)
  show ?case
  proof (cases "good f")
    case False
    then have "r \<in> set (good_runs fs)"
      using "2.prems" by simp
    then have "fst r \<in> set fs \<and> set (snd r) \<subseteq> set fs"
      using False by (rule "2.IH"(2) [rotated])
    then show ?thesis by auto
  next
    case True
    then have "r = (f, takeWhile good fs) \<or> r \<in> set (good_runs (dropWhile good fs))"
      using "2.prems" by simp
    then show ?thesis
    proof
      assume "r = (f, takeWhile good fs)"
      then show ?thesis by (auto dest: set_takeWhileD)
    next
      assume "r \<in> set (good_runs (dropWhile good fs))"
      then have "fst r \<in> set (dropWhile good fs) \<and> set (snd r) \<subseteq> set (dropWhile good fs)"
        using True by (rule "2.IH"(1) [rotated])
      then show ?thesis using set_dropWhileD [of _ good fs] by auto
    qed
  qed
qed

lemma good_runs_concat:
  "concat (map (\<lambda>r. fst r # snd r) (good_runs fs)) = filter good fs"
proof (induction fs rule: good_runs.induct)
  case 1
  show ?case by simp
next
  case (2 f fs)
  show ?case
  proof (cases "good f")
    case False
    then show ?thesis using 2 by simp
  next
    case True
    have "filter good fs = filter good (takeWhile good fs @ dropWhile good fs)"
      by simp
    also have "\<dots> = takeWhile good fs @ filter good (dropWhile good fs)"
      unfolding filter_append by (auto simp: filter_id_conv dest: set_takeWhileD)
    finally show ?thesis using True "2.IH"(1) by simp
  qed
qed

lemma runs_starts:
  "sorted_wrt hour_before fs \<Longrightarrow> sorted_wrt starts_before (map window_of_run (good_runs fs))"
proof (induction fs rule: good_runs.induct)
  case 1
  show ?case by simp
next
  case (2 f fs)
  show ?case
  proof (cases "good f")
    case False
    then show ?thesis using 2 by simp
  next
    case True
    let ?gs = "takeWhile good fs" and ?rest = "dropWhile good fs"
    have "sorted_wrt hour_before (?gs @ ?rest)"
      using "2.prems" by simp
    then have rest: "sorted_wrt hour_before ?rest"
      by (simp add: sorted_wrt_append)
    have "starts_before (window_of_run (f, ?gs)) (window_of_run r)"
      if r: "r \<in> set (good_runs ?rest)" for r
    proof -
      have "fst r \<in> set ?rest"
        using good_runs_subset [OF r] by simp
      then have "fst r \<in> set fs"
        by (rule set_dropWhileD)
      then have "hour_before f (fst r)"
        using "2.prems" by simp
      then show ?thesis
        by (simp add: starts_before_def window_of_run_def hour_before_def)
    qed
    then show ?thesis
      using True "2.IH"(1) [OF True rest] by simp
  qed
qed

lemma gapped_tl: "gapped (a # fs) \<Longrightarrow> gapped fs"
  by (cases fs) simp_all

lemma gapped_suffix: "gapped (pre @ fs) \<Longrightarrow> gapped fs"
  by (induction pre) (auto dest: gapped_tl)

lemma runs_ends:
  "gapped fs \<Longrightarrow> sorted_wrt ends_before (map window_of_run (good_runs fs))"
proof (induction fs rule: good_runs.induct)
  case 1
  show ?case by simp
next
  case (2 f fs)
  show ?case
  proof (cases "good f")
    case False
    then show ?thesis using 2 gapped_tl [of f fs] by simp
  next
    case True
    let ?gs = "takeWhile good fs" and ?rest = "dropWhile good fs"
    let ?l = "last (f # ?gs)"
    have split: "f # fs = butlast (f # ?gs) @ ?l # ?rest"
    proof -
      have "f # fs = (f # ?gs) @ ?rest" by simp
      also have "f # ?gs = butlast (f # ?gs) @ [?l]"
        by (rule append_butlast_last_id [symmetric]) simp
      finally show ?thesis by simp
    qed
    have rest: "gapped ?rest"
      using "2.prems" gapped_suffix [of "f # ?gs" ?rest] by simp
    have "ends_before (window_of_run (f, ?gs)) (window_of_run r)"
      if r: "r \<in> set (good_runs ?rest)" for r
    proof (cases ?rest)
      case Nil
      show ?thesis using r unfolding Nil by simp
    next
      case (Cons b rest')
      have "\<not> good b"
        using dropWhile_head [of good fs] Cons by simp
      then have "r \<in> set (good_runs rest')"
        using r Cons by simp
      then have m: "fst r \<in> set rest'"
        using good_runs_subset by blast
      have "gapped (butlast (f # ?gs) @ ?l # b # rest')"
        using "2.prems" split Cons by simp
      then have "gapped (?l # b # rest')"
        by (rule gapped_suffix)
      then have "hour_of (dt ?l) + 3 \<le> hour_of (dt (fst r))"
        using m by (simp add: list_all_iff)
      then show ?thesis
        by (simp add: ends_before_def window_of_run_def)
    qed
    then show ?thesis
      using True "2.IH"(1) [OF True rest] by simp
  qed
qed

lemma two_hours_apart_gapped: "sorted_wrt two_hours_apart fs \<Longrightarrow> gapped fs"
proof (induction fs rule: gapped.induct)
  case (1 a b rest)
  have ab: "two_hours_apart a b" and bc: "\<forall>c \<in> set rest. two_hours_apart b c"
    and tl: "sorted_wrt two_hours_apart (b # rest)"
    using "1.prems" by simp_all
  have "\<forall>c \<in> set rest. hour_of (dt a) + 3 \<le> hour_of (dt c)"
    using ab bc by (auto simp: two_hours_apart_def)
  then show ?case
    using "1.IH" [OF tl] by (simp add: list_all_iff)
qed simp_all

lemma two_hours_apart_hour_before:
  "sorted_wrt two_hours_apart fs \<Longrightarrow> sorted_wrt hour_before fs"
  by (rule sorted_wrt_mono_rel [of fs two_hours_apart hour_before])
    (simp_all add: two_hours_apart_def hour_before_def)

text \<open>
  Claim C3 as stated fails for hourly records: with records at 09:00 (dry), 10:00 (rain)
  and 11:00 (dry) the windows are 09:00-12:00 and 11:00-14:00, and the first ends after
  the second starts.
\<close>

theorem hourly_windows_overlap:
  "map_option (map time) (map_option windows (map_option fst
      (analyze_day_weather hourly_day ''Saturday'' 72000))) =
     Some [''09:00-12:00'', ''11:00-14:00''] \<and>
   Option.bind (first_pass hourly_day) (find_dry_windows (cutoff 72000)) =
     Some [\<lparr>w_start = 9, w_end = 12, w_temp = 12, w_wind = 8.948\<rparr>,
           \<lparr>w_start = 11, w_end = 14, w_temp = 13, w_wind = 6.711\<rparr>] \<and>
   \<not> ends_before \<lparr>w_start = 9, w_end = 12, w_temp = 12, w_wind = 8.948\<rparr>
                  \<lparr>w_start = 11, w_end = 14, w_temp = 13, w_wind = 6.711\<rparr>"
  by (simp add: hourly_day_def fetched_def rain_prob_of_def scope_simps analyze_simps
      ends_before_def)

text \<open>
  Claim C3, amended. The windows are in chronologically increasing order (each starts
  before the next) whenever the hours of the in-scope records increase in chronological
  order, at any spacing, hourly included. They are pairwise non-overlapping (each is over
  when the next starts) whenever any two in-scope records with another in-scope record
  between them are at least three hours apart, as are records two or more hours apart
  (lemma \<open>two_hours_apart_gapped\<close>).
\<close>

theorem windows_ordered_and_disjoint:
  assumes "list_all well_formed fs"
  shows "\<exists>res fs' ws. analyze_day_weather fs n s = Some (res, fs') \<and>
     find_dry_windows (cutoff s) fs' = Some ws \<and>
     windows res = map (report (has_rain morning fs) (has_rain afternoon fs)) ws \<and>
     (sorted_wrt hour_before (in_scope_sorted s fs) \<longrightarrow> sorted_wrt starts_before ws) \<and>
     (gapped (in_scope_sorted s fs) \<longrightarrow> sorted_wrt ends_before ws)"
proof -
  have "analyze_day_weather fs n s = Some (analysis fs s, map enriched fs)"
    using assms(1) by (simp add: analyze_day_weather_eq)
  moreover have "find_dry_windows (cutoff s) (map enriched fs) = Some (dry_windows_of fs s)"
    by (simp add: find_dry_windows_enriched dry_windows_of_def)
  moreover have "sorted_wrt hour_before (in_scope_sorted s fs) \<longrightarrow>
      sorted_wrt starts_before (dry_windows_of fs s)"
    unfolding dry_windows_of_runs using runs_starts by blast
  moreover have "gapped (in_scope_sorted s fs) \<longrightarrow> sorted_wrt ends_before (dry_windows_of fs s)"
    unfolding dry_windows_of_runs using runs_ends by blast
  ultimately show ?thesis
    using windows_analysis [of fs s] by blast
qed

lemma in_scope_sorted_two_hourly_day:
  "in_scope_sorted 72000 two_hourly_day = two_hourly_day"
  by (simp add: in_scope_sorted_def two_hourly_day_def fetched_def scope_simps)

lemma in_scope_sorted_hourly_day:
  "in_scope_sorted 72000 hourly_day = hourly_day"
  by (simp add: in_scope_sorted_def hourly_day_def fetched_def scope_simps)

theorem windows_ordered_and_disjoint_witness:
  "list_all well_formed two_hourly_day \<and>
   sorted_wrt hour_before (in_scope_sorted 72000 two_hourly_day) \<and>
   gapped (in_scope_sorted 72000 two_hourly_day) \<and>
   (\<exists>res fs' ws. analyze_day_weather two_hourly_day ''Saturday'' 72000 = Some (res, fs') \<and>
     find_dry_windows (cutoff 72000) fs' = Some ws \<and>
     windows res = map (report (has_rain morning two_hourly_day) (has_rain afternoon two_hourly_day)) ws \<and>
     sorted_wrt starts_before ws \<and> sorted_wrt ends_before ws)"
proof -
  have h1: "list_all well_formed two_hourly_day"
    by (simp add: two_hourly_day_def fetched_simps)
  have h2: "sorted_wrt hour_before (in_scope_sorted 72000 two_hourly_day)"
    unfolding in_scope_sorted_two_hourly_day
    by (simp add: two_hourly_day_def fetched_def hour_before_def hour_of_def)
  have h3: "gapped (in_scope_sorted 72000 two_hourly_day)"
    unfolding in_scope_sorted_two_hourly_day
    by (simp add: two_hourly_day_def fetched_def hour_of_def)
  show ?thesis
    using h1 h2 h3 windows_ordered_and_disjoint [OF h1, of "''Saturday''" 72000] by blast
qed

text \<open>The two examples evaluated: hourly records stay ordered, two-hourly ones are also disjoint.\<close>

lemma hourly_day_ordered:
  "sorted_wrt hour_before (in_scope_sorted 72000 hourly_day) \<and>
   \<not> gapped (in_scope_sorted 72000 hourly_day)"
  unfolding in_scope_sorted_hourly_day
  by (simp add: hourly_day_def fetched_def hour_before_def hour_of_def)

lemma two_hourly_day_analysis:
  "map_option (map time) (map_option windows (map_option fst
      (analyze_day_weather two_hourly_day ''Saturday'' 72000))) =
     Some [''09:00-12:00'', ''13:00-16:00'']"
  by (simp add: two_hourly_day_def fetched_def rain_prob_of_def scope_simps analyze_simps)

text \<open>
  Claim C4 as stated fails: the rain flags behind the annotations are taken over all
  records of the day. A rainy record at 15:00, after the cutoff of a 14:00 sunset, turns
  the text of the morning window from \<open>09:00-12:00\<close> into \<open>09:00-12:00 (before rain)\<close>.
\<close>

theorem late_rain_changes_description:
  "filter (in_scope (cutoff 50400)) morning_and_late_rain =
     filter (in_scope (cutoff 50400)) morning_only \<and>
   map_option (map time) (map_option windows (map_option fst
      (analyze_day_weather morning_and_late_rain ''Saturday'' 50400))) =
     Some [''09:00-12:00 (before rain)''] \<and>
   map_option (map time) (map_option windows (map_option fst
      (analyze_day_weather morning_only ''Saturday'' 50400))) =
     Some [''09:00-12:00'']"
  by (simp add: morning_and_late_rain_def morning_only_def fetched_def rain_prob_of_def
      scope_simps analyze_simps)

lemma stats_analysis:
  "temp_range (analysis fs s) = temp_range (stats initial_results (filter (in_scope (cutoff s)) fs))"
  "max_wind (analysis fs s) = max_wind (stats initial_results (filter (in_scope (cutoff s)) fs))"
  "reasons (analysis fs s) = reasons (stats initial_results (filter (in_scope (cutoff s)) fs))"
  by (simp_all add: analysis_def Let_def)

text \<open>
  Claim C4, amended. Two lists of well-formed records with the same in-scope records give
  the same temperature range, maximum wind, reasons and verdict, and the same dry
  windows: the same hours, temperatures and winds. The texts of the windows differ at
  most in the annotation \<open>(before rain)\<close> or \<open>(after rain)\<close>, which follows the rain flags of
  all records of the day, in scope or not; when the two lists also agree on morning and
  afternoon rain, the windows are the same.
\<close>

theorem in_scope_records_decide:
  assumes "list_all well_formed xs"
    and "list_all well_formed ys"
    and "filter (in_scope (cutoff s)) xs = filter (in_scope (cutoff s)) ys"
  shows "\<exists>r1 xs' r2 ys' ws.
     analyze_day_weather xs n s = Some (r1, xs') \<and>
     analyze_day_weather ys n' s = Some (r2, ys') \<and>
     temp_range r1 = temp_range r2 \<and> max_wind r1 = max_wind r2 \<and>
     reasons r1 = reasons r2 \<and> playable r1 = playable r2 \<and>
     find_dry_windows (cutoff s) xs' = Some ws \<and>
     find_dry_windows (cutoff s) ys' = Some ws \<and>
     windows r1 = map (report (has_rain morning xs) (has_rain afternoon xs)) ws \<and>
     windows r2 = map (report (has_rain morning ys) (has_rain afternoon ys)) ws \<and>
     map r_temp (windows r1) = map r_temp (windows r2) \<and>
     map r_wind (windows r1) = map r_wind (windows r2) \<and>
     (has_rain morning xs = has_rain morning ys \<and> has_rain afternoon xs = has_rain afternoon ys
        \<longrightarrow> windows r1 = windows r2)"
proof -
  let ?r1 = "analysis xs s" and ?r2 = "analysis ys s"
  let ?ws = "dry_windows_of xs s"
  have a1: "analyze_day_weather xs n s = Some (?r1, map enriched xs)"
    using assms(1) by (simp add: analyze_day_weather_eq)
  have a2: "analyze_day_weather ys n' s = Some (?r2, map enriched ys)"
    using assms(2) by (simp add: analyze_day_weather_eq)
  have ins: "in_scope_sorted s xs = in_scope_sorted s ys"
    using assms(3) by (simp add: in_scope_sorted_filter)
  then have dw: "dry_windows_of ys s = ?ws"
    by (simp add: dry_windows_of_def)
  have f1: "find_dry_windows (cutoff s) (map enriched xs) = Some ?ws"
    by (simp add: find_dry_windows_enriched dry_windows_of_def)
  have f2: "find_dry_windows (cutoff s) (map enriched ys) = Some ?ws"
    using ins by (simp add: find_dry_windows_enriched dry_windows_of_def)
  have w1: "windows ?r1 = map (report (has_rain morning xs) (has_rain afternoon xs)) ?ws"
    by (rule windows_analysis)
  have w2: "windows ?r2 = map (report (has_rain morning ys) (has_rain afternoon ys)) ?ws"
    using windows_analysis [of ys s] by (simp add: dw)
  have st: "temp_range ?r1 = temp_range ?r2" "max_wind ?r1 = max_wind ?r2"
      "reasons ?r1 = reasons ?r2"
    using assms(3) by (simp_all add: stats_analysis)
  have len: "(windows ?r1 = []) = (windows ?r2 = [])"
    by (simp add: w1 w2)
  have pl: "playable ?r1 = playable ?r2"
    using st(2) len by (simp add: playable_analysis)
  have tw: "map r_temp (windows ?r1) = map r_temp (windows ?r2)"
      "map r_wind (windows ?r1) = map r_wind (windows ?r2)"
    by (simp_all add: w1 w2 report_def)
  have eq: "has_rain morning xs = has_rain morning ys \<and>
      has_rain afternoon xs = has_rain afternoon ys \<longrightarrow> windows ?r1 = windows ?r2"
    by (simp add: w1 w2)
  from a1 a2 st pl f1 f2 w1 w2 tw eq show ?thesis by blast
qed

theorem in_scope_records_decide_witness:
  "list_all well_formed morning_and_late_rain \<and> list_all well_formed morning_only \<and>
   filter (in_scope (cutoff 50400)) morning_and_late_rain =
     filter (in_scope (cutoff 50400)) morning_only \<and>
   (\<exists>r1 xs' r2 ys' ws.
     analyze_day_weather morning_and_late_rain ''Saturday'' 50400 = Some (r1, xs') \<and>
     analyze_day_weather morning_only ''Saturday'' 50400 = Some (r2, ys') \<and>
     temp_range r1 = temp_range r2 \<and> max_wind r1 = max_wind r2 \<and>
     reasons r1 = reasons r2 \<and> playable r1 = playable r2 \<and>
     find_dry_windows (cutoff 50400) xs' = Some ws \<and>
     find_dry_windows (cutoff 50400) ys' = Some ws \<and>
     windows r1 = map (report (has_rain morning morning_and_late_rain)
                         (has_rain afternoon morning_and_late_rain)) ws \<and>
     windows r2 = map (report (has_rain morning morning_only)
                         (has_rain afternoon morning_only)) ws \<and>
     map r_temp (windows r1) = map r_temp (windows r2) \<and>
     map r_wind (windows r1) = map r_wind (windows r2) \<and>
     (has_rain morning morning_and_late_rain = has_rain morning morning_only \<and>
      has_rain afternoon morning_and_late_rain = has_rain afternoon morning_only
        \<longrightarrow> windows r1 = windows r2))"
proof -
  have h1: "list_all well_formed morning_and_late_rain"
    by (simp add: morning_and_late_rain_def fetched_simps)
  have h2: "list_all well_formed morning_only"
    by (simp add: morning_only_def fetched_simps)
  have h3: "filter (in_scope (cutoff 50400)) morning_and_late_rain =
      filter (in_scope (cutoff 50400)) morning_only"
    by (simp add: morning_and_late_rain_def morning_only_def fetched_def scope_simps)
  show ?thesis
    using h1 h2 h3
      in_scope_records_decide [OF h1 h2 h3, of "''Saturday''" "''Saturday''"]
    by blast
qed

text \<open>
  Claim C10. The windows of the analysis are those of the maximal runs of consecutive good
  records among the in-scope records in chronological order (the runs, put end to end,
  are the good records in that order). The window of a run carries the temperature and
  wind of the first record of the run; the later records of the run only move its end, to
  three hours after the hour of the last one.
\<close>

theorem window_of_first_record:
  assumes "list_all well_formed fs"
  shows "\<exists>res fs'. analyze_day_weather fs n s = Some (res, fs') \<and>
     windows res =
       map (\<lambda>run.
         \<lparr>time = window_desc (has_rain morning fs) (has_rain afternoon fs)
                  \<lparr>w_start = hour_of (dt (fst run)),
                   w_end = hour_of (dt (last (fst run # snd run))) + 3,
                   w_temp = main_temp (fst run), w_wind = wind_mph_of (fst run)\<rparr>,
          r_temp = main_temp (fst run), r_wind = wind_mph_of (fst run)\<rparr>)
         (good_runs (in_scope_sorted s fs)) \<and>
     concat (map (\<lambda>run. fst run # snd run) (good_runs (in_scope_sorted s fs))) =
       filter good (in_scope_sorted s fs)"
proof -
  have "analyze_day_weather fs n s = Some (analysis fs s, map enriched fs)"
    using assms by (simp add: analyze_day_weather_eq)
  moreover have "windows (analysis fs s) =
       map (\<lambda>run.
         \<lparr>time = window_desc (has_rain morning fs) (has_rain afternoon fs)
                  \<lparr>w_start = hour_of (dt (fst run)),
                   w_end = hour_of (dt (last (fst run # snd run))) + 3,
                   w_temp = main_temp (fst run), w_wind = wind_mph_of (fst run)\<rparr>,
          r_temp = main_temp (fst run), r_wind = wind_mph_of (fst run)\<rparr>)
         (good_runs (in_scope_sorted s fs))"
    by (simp add: windows_analysis dry_windows_of_runs report_def window_of_run_def)
  ultimately show ?thesis
    using good_runs_concat [of "in_scope_sorted s fs"] by blast
qed

theorem window_of_first_record_witness:
  "list_all well_formed calm_day \<and>
   (\<exists>res fs'. analyze_day_weather calm_day ''Saturday'' 72000 = Some (res, fs') \<and>
     windows res =
       map (\<lambda>run.
         \<lparr>time = window_desc (has_rain morning calm_day) (has_rain afternoon calm_day)
                  \<lparr>w_start = hour_of (dt (fst run)),
                   w_end = hour_of (dt (last (fst run # snd run))) + 3,
                   w_temp = main_temp (fst run), w_wind = wind_mph_of (fst run)\<rparr>,
          r_temp = main_temp (fst run), r_wind = wind_mph_of (fst run)\<rparr>)
         (good_runs (in_scope_sorted 72000 calm_day)) \<and>
     concat (map (\<lambda>run. fst run # snd run) (good_runs (in_scope_sorted 72000 calm_day))) =
       filter good (in_scope_sorted 72000 calm_day))"
proof -
  have h: "list_all well_formed calm_day"
    by (simp add: calm_day_def fetched_simps)
  show ?thesis
    using h window_of_first_record [OF h, of "''Saturday''" 72000] by blast
qed

lemmas booking_simps =
  check_for_bookings_def load_state_def save_state_def send_telegram_message_def
  parse_booking_def time_match_def adjust_hour_def is_digit_def digits_value_def
  capitalize_def upper_char_def lower_def lower_char_def format_02d_def str_nat.simps
  digit_char_def Let_def

text \<open>
  The messages quoted in the specification: each of the three booking messages stores the
  booking it lists, and \<open>stop\<close> stores no booking.
\<close>

lemma quoted_messages_parsed:
  "check_for_bookings [Message (Some ''Booked for sunday at 15:00'')] w =
     w\<lparr>state_file := Some ((load_state w)\<lparr>booking := Some \<lparr>b_day = ''sunday'', b_time = ''15:00''\<rparr>\<rparr>),
       sent := sent w @ [Booked ''Sunday'' ''15:00'']\<rparr>"
  "check_for_bookings [Message (Some ''booked for sat at 3pm'')] w =
     w\<lparr>state_file := Some ((load_state w)\<lparr>booking := Some \<lparr>b_day = ''saturday'', b_time = ''15:00''\<rparr>\<rparr>),
       sent := sent w @ [Booked ''Saturday'' ''15:00'']\<rparr>"
  "check_for_bookings [Message (Some ''booked for sunday at 3'')] w =
     w\<lparr>state_file := Some ((load_state w)\<lparr>booking := Some \<lparr>b_day = ''sunday'', b_time = ''15:00''\<rparr>\<rparr>),
       sent := sent w @ [Booked ''Sunday'' ''15:00'']\<rparr>"
  "check_for_bookings [Message (Some ''stop'')] w =
     w\<lparr>state_file := Some ((load_state w)\<lparr>booking := None\<rparr>), sent := sent w @ [Stopped]\<rparr>"
  by (simp_all add: booking_simps)

text \<open>
  Claim C6 says that a message without meridiem and with an hour below 9 stores the hour
  plus 12 (the code's own comment: assume pm if the hour is small and no am/pm is
  specified). The code tests for \<open>am\<close> and \<open>pm\<close> anywhere in the message, not next to the
  time: in \<open>booked for sunday at 3, same time\<close> no meridiem is given, yet \<open>same\<close> contains
  \<open>am\<close>, the rule does not fire, and the booking is stored for 03:00 instead of 15:00.
\<close>

theorem incidental_am_blocks_pm_rule:
  "check_for_bookings [Message (Some ''booked for sunday at 3, same time'')] fresh_world =
     \<lparr>state_file = Some \<lparr>booking = Some \<lparr>b_day = ''sunday'', b_time = ''03:00''\<rparr>\<rparr>,
      sent = [Booked ''Sunday'' ''03:00'']\<rparr>"
  by (simp add: fresh_world_def booking_simps)

text \<open>
  The same test makes an incidental \<open>pm\<close> count: \<open>equipment\<close> turns 10am into 22:00.
\<close>

lemma incidental_pm_shifts_morning_hour:
  "check_for_bookings [Message (Some ''booked for sunday at 10am, equipment ready'')] fresh_world =
     \<lparr>state_file = Some \<lparr>booking = Some \<lparr>b_day = ''sunday'', b_time = ''22:00''\<rparr>\<rparr>,
      sent = [Booked ''Sunday'' ''22:00'']\<rparr>"
  by (simp add: fresh_world_def booking_simps)

lemmas reminder_simps =
  friday_reminder_def load_state_def save_state_def send_telegram_message_def
  target_day_of_def weekday_def date_of_def relevant_forecasts_def int_of_string_def
  is_digit_def digits_value_def hour_of_def capitalize_def upper_char_def lower_def
  lower_char_def Let_def

text \<open>
  Claim C7 says that in reminder mode, with a booking and forecast data, a reminder is
  sent and the stored booking is then cleared. The code clears the booking on one of its
  two reminder paths only. On a Monday, with a booking for Sunday at 15:00 and a forecast
  reply that has records (for Monday and Tuesday) but none on the booked day near the
  booked hour, the reminder \<open>You're booked for Sunday at 15:00\<close> is sent and the run returns
  before the step the code marks \<open>Clear booking after reminder\<close>: the booking stays in
  the state file.
\<close>

theorem reminder_sent_booking_kept:
  "friday_reminder (Some weekdays_forecast) monday_morning booked_world =
     Some \<lparr>state_file = Some \<lparr>booking = Some \<lparr>b_day = ''sunday'', b_time = ''15:00''\<rparr>\<rparr>,
           sent = [ReminderNoForecast ''Sunday'' ''15:00'']\<rparr>"
  by (simp add: weekdays_forecast_def monday_morning_def booked_world_def fetched_def
      reminder_simps)

text \<open>The other paths do what the claim says.\<close>

lemma no_booking_no_op:
  "booking (load_state w) = None \<Longrightarrow> friday_reminder weather_data today w = Some w"
  by (simp add: friday_reminder_def)

lemma min_by_in_set: "min_by k x xs \<in> set (x # xs)"
  by (induction xs arbitrary: x) (auto split: if_splits)

lemma reminder_with_conditions:
  assumes "booking (load_state w) = Some b"
    and "list_all well_formed fs"
    and "int_of_string (takeWhile (\<lambda>c. c \<noteq> CHR '':'') (b_time b)) = Some h"
    and "relevant_forecasts (target_day_of (b_day b) today) h fs = f # rest"
    and "closest = min_by (\<lambda>x. \<bar>int (hour_of (dt x)) - h\<bar>) f rest"
  shows "friday_reminder (Some fs) today w =
     Some (w\<lparr>state_file := Some ((load_state w)\<lparr>booking := None\<rparr>),
            sent := sent w @ [Reminder (capitalize (b_day b)) (b_time b)
              (format_0f (main_temp closest)) (format_0f (wind_mph_of closest))
              (format_0f (rain_prob_of closest))
              (if rainy closest then RainLikely
               else if MAX_WIND_SPEED_MPH < wind_mph_of closest
               then HighWinds (format_0f (wind_mph_of closest)) else LooksGood)]\<rparr>)"
proof -
  have "closest \<in> set (f # rest)"
    unfolding assms(5) by (rule min_by_in_set)
  then have "closest \<in> set fs"
    unfolding assms(4) [symmetric] relevant_forecasts_def by simp
  then have "well_formed closest"
    using assms(2) by (simp add: list_all_iff)
  then obtain rains where wr: "will_rain_of closest = Some rains"
    using will_rain_of_well_formed [of closest] by auto
  then have "rainy closest = rains"
    by (simp add: rainy_def)
  then show ?thesis
    using assms(1,3,4) wr assms(5) [symmetric]
    by (simp add: friday_reminder_def save_state_def send_telegram_message_def Let_def)
qed

lemma friday_reminder_evaluated:
  "friday_reminder (Some sunday_forecast) friday_morning booked_world =
     Some \<lparr>state_file = Some \<lparr>booking = None\<rparr>,
           sent = [Reminder ''Sunday'' ''15:00'' ''12'' ''9'' ''20'' LooksGood]\<rparr>"
  by (simp add: sunday_forecast_def friday_morning_def booked_world_def fetched_def
      reminder_simps will_rain_of_def rain_prob_of_def weather_main_def wind_mph_of_def
      MAX_WIND_SPEED_MPH_def format_0f_def round_half_even_def str_nat.simps digit_char_def)

end
